theory Spec2Isabelle
  imports Complex_Main "HOL-Library.AList"
begin

section \<open>FaceCam (src/main.py): numbers\<close>

text \<open>
  Python floats are modelled as exact reals: rounding of finite values is not part of
  the model. \<open>py_int\<close> is \<^verbatim>\<open>int(x)\<close> on a float (truncation toward zero),
  \<open>py_round\<close> is \<^verbatim>\<open>round(x)\<close> (to the nearest integer, ties to the even one).
  Python's \<^verbatim>\<open>//\<close> and \<^verbatim>\<open>%\<close> on integers are HOL's \<open>div\<close> and \<open>mod\<close>.
\<close>

definition py_int :: "real \<Rightarrow> int" where
  "py_int x = (if x < 0 then \<lceil>x\<rceil> else \<lfloor>x\<rfloor>)"

definition py_round :: "real \<Rightarrow> int" where
  "py_round x =
     (let f = \<lfloor>x\<rfloor>; d = x - of_int f
      in if d < 1 / 2 then f
         else if 1 / 2 < d then f + 1
         else if even f then f else f + 1)"

definition OUT_W :: int where "OUT_W = 640"
definition OUT_H :: int where "OUT_H = 640"

section \<open>Face estimate (camera_loop, lines 611-627)\<close>

text \<open>
  The three loop variables \<^verbatim>\<open>smooth_cx, smooth_cy, smooth_size\<close> are always assigned
  together, so the estimate is one optional record; \<open>None\<close> is the Python \<^verbatim>\<open>None\<close>.
  A detection is a box \<open>(x, y, w, h)\<close>.
\<close>

record estimate =
  smooth_cx :: real
  smooth_cy :: real
  smooth_size :: real

type_synonym box = "int \<times> int \<times> int \<times> int"

definition area :: "box \<Rightarrow> int" where
  "area f = (case f of (x, y, w, h) \<Rightarrow> w * h)"

text \<open>\<^verbatim>\<open>max(faces, key=lambda f: f[2] * f[3])\<close>: the first box of largest area.\<close>

fun max_face :: "box \<Rightarrow> box list \<Rightarrow> box" where
  "max_face b [] = b"
| "max_face b (f # fs) = max_face (if area b < area f then f else b) fs"

definition ema :: "real \<Rightarrow> real \<Rightarrow> real \<Rightarrow> real" where
  "ema alpha old new = (1 - alpha) * old + alpha * new"

definition face_update :: "real \<Rightarrow> estimate option \<Rightarrow> box list \<Rightarrow> estimate option" where
  "face_update alpha sm faces =
     (case faces of
        [] \<Rightarrow> sm
      | f # fs \<Rightarrow>
          (case max_face f fs of (x, y, w, h) \<Rightarrow>
             let cx = x + w div 2; cy = y + h div 2; sz = max w h
             in (case sm of
                   None \<Rightarrow>
                     Some \<lparr>smooth_cx = of_int cx, smooth_cy = of_int cy,
                           smooth_size = of_int sz\<rparr>
                 | Some s \<Rightarrow>
                     Some \<lparr>smooth_cx = ema alpha (smooth_cx s) (of_int cx),
                           smooth_cy = ema alpha (smooth_cy s) (of_int cy),
                           smooth_size = ema alpha (smooth_size s) (of_int sz)\<rparr>)))"

section \<open>Crop planning (camera_loop, lines 629-677)\<close>

text \<open>
  A frame is its shape \<open>(h_f, w_f)\<close>. A crop is the pixel rectangle a numpy slice
  \<^verbatim>\<open>frame[y1:y2, x1:x2]\<close> selects: its first column and row and its extent. numpy
  counts a negative bound from the end and cuts both bounds to the axis.
\<close>

record crop =
  crop_x :: int
  crop_y :: int
  crop_cols :: int
  crop_rows :: int

definition np_bound :: "int \<Rightarrow> int \<Rightarrow> int" where
  "np_bound n i = (if i < 0 then max 0 (i + n) else min i n)"

definition np_slice :: "int \<Rightarrow> int \<Rightarrow> int \<Rightarrow> int \<times> int" where
  "np_slice n a b =
     (let s = np_bound n a; e = np_bound n b in (s, max 0 (e - s)))"

definition slice_frame :: "int \<Rightarrow> int \<Rightarrow> int \<Rightarrow> int \<Rightarrow> int \<Rightarrow> int \<Rightarrow> crop" where
  "slice_frame h_f w_f y1 y2 x1 x2 =
     (case np_slice h_f y1 y2 of (ys, rows) \<Rightarrow>
      case np_slice w_f x1 x2 of (xs, cols) \<Rightarrow>
        \<lparr>crop_x = xs, crop_y = ys, crop_cols = cols, crop_rows = rows\<rparr>)"

text \<open>Lines 633-636 and 672-675: the centred square crop.\<close>

definition center_crop :: "int \<Rightarrow> int \<Rightarrow> crop" where
  "center_crop h_f w_f =
     (let sz = min h_f w_f;
          x0 = (w_f - sz) div 2;
          y0 = (h_f - sz) div 2
      in slice_frame h_f w_f y0 (y0 + sz) x0 (x0 + sz))"

text \<open>Line 640: \<^verbatim>\<open>desired = int(smooth_size * margin)\<close>; line 642: the clamp.\<close>

definition desired_size :: "estimate \<Rightarrow> real \<Rightarrow> int" where
  "desired_size s margin = py_int (smooth_size s * margin)"

definition crop_size :: "int \<Rightarrow> int \<Rightarrow> estimate \<Rightarrow> real \<Rightarrow> int" where
  "crop_size h_f w_f s margin = max 50 (min (desired_size s margin) (min h_f w_f))"

text \<open>Lines 652-659 on one axis: first the lower clamp, then the upper one.\<close>

definition clamp_axis :: "int \<Rightarrow> int \<Rightarrow> int \<Rightarrow> int" where
  "clamp_axis n sz x1 =
     (let x1a = (if x1 < 0 then 0 else x1)
      in if n < x1a + sz then n - sz else x1a)"

definition plan_crop :: "int \<Rightarrow> int \<Rightarrow> estimate option \<Rightarrow> real \<Rightarrow> crop" where
  "plan_crop h_f w_f sm margin =
     (case sm of
        None \<Rightarrow> center_crop h_f w_f
      | Some s \<Rightarrow>
          let sz = crop_size h_f w_f s margin;
              cx = py_round (smooth_cx s);
              cy = py_round (smooth_cy s);
              x1 = clamp_axis w_f sz (cx - sz div 2);
              y1 = clamp_axis h_f sz (cy - sz div 2);
              x2 = x1 + sz;
              y2 = y1 + sz;
              c = slice_frame h_f w_f y1 y2 x1 x2
          in if crop_rows c * crop_cols c = 0 \<or> crop_rows c \<noteq> crop_cols c
             then center_crop h_f w_f
             else c)"

text \<open>
  Line 677: \<^verbatim>\<open>cv2.resize(crop, (OUT_W, OUT_H))\<close> raises on an empty image and
  otherwise gives an image of exactly the output size.
\<close>

datatype loop_error = ResizeEmpty

definition resize_crop :: "crop \<Rightarrow> loop_error + int \<times> int" where
  "resize_crop c =
     (if crop_rows c * crop_cols c = 0 then Inl ResizeEmpty else Inr (OUT_W, OUT_H))"

section \<open>One iteration of camera_loop (lines 555-680)\<close>

text \<open>
  The loop reads the configuration with the types the source documents for it
  (\<^verbatim>\<open>camera_index\<close> an int or \<^verbatim>\<open>None\<close>, the orientation a string, the tuning
  values numbers). What the devices and the detector answer in an iteration is the
  iteration's input: whether \<^verbatim>\<open>cap.isOpened()\<close> holds after opening, the shape
  \<open>(h, w)\<close> of the frame \<^verbatim>\<open>cap.read()\<close> returns (\<open>None\<close> when \<^verbatim>\<open>ret\<close> is false),
  and the boxes \<^verbatim>\<open>detectMultiScale\<close> finds in the oriented frame.
\<close>

record loop_cfg =
  camera_index :: "int option"
  orientation :: string
  detection_every_n_frames :: int
  smoothing_alpha :: real
  margin_factor :: real

record cam_env =
  open_ok :: bool
  read_ret :: "(int \<times> int) option"
  detected :: "box list"

record loop_state =
  smooth :: "estimate option"
  frame_idx :: int
  current_cam_index :: "int option"
  cap :: "int option"

datatype event =
    Released
  | Opened int
  | OpenFailed int
  | ReadFailed
  | Slept
  | Sent int int
  | Raised loop_error

text \<open>Lines 514-519, on the shape of the frame: a quarter turn swaps height and width.\<close>

definition apply_orientation :: "int \<times> int \<Rightarrow> string \<Rightarrow> int \<times> int" where
  "apply_orientation frame orient =
     (if orient = ''cw'' then (snd frame, fst frame)
      else if orient = ''ccw'' then (snd frame, fst frame)
      else frame)"

text \<open>Lines 594-680: a frame was read.\<close>

definition process_frame ::
    "loop_cfg \<Rightarrow> cam_env \<Rightarrow> loop_state \<Rightarrow> int \<times> int \<Rightarrow> loop_state \<times> event list" where
  "process_frame cfg env st frame =
     (let idx = frame_idx st + 1;
          shape = apply_orientation frame (orientation cfg);
          det_n = max 1 (detection_every_n_frames cfg);
          alpha = smoothing_alpha cfg;
          margin = margin_factor cfg;
          sm = (if idx mod det_n = 0 then face_update alpha (smooth st) (detected env)
                else smooth st);
          st' = st\<lparr>smooth := sm, frame_idx := idx\<rparr>
      in case resize_crop (plan_crop (fst shape) (snd shape) sm margin) of
           Inl e \<Rightarrow> (st', [Raised e])
         | Inr (w, h) \<Rightarrow> (st', [Sent w h]))"

text \<open>Lines 584-592: no device, or a failed read, ends the iteration with a sleep.\<close>

definition read_and_process ::
    "loop_cfg \<Rightarrow> cam_env \<Rightarrow> loop_state \<Rightarrow> loop_state \<times> event list" where
  "read_and_process cfg env st =
     (case cap st of
        None \<Rightarrow> (st, [Slept])
      | Some d \<Rightarrow>
          (case read_ret env of
             None \<Rightarrow> (st, [ReadFailed, Slept])
           | Some frame \<Rightarrow> process_frame cfg env st frame))"

text \<open>Lines 556-582 and the rest of the body: the camera switch comes first.\<close>

definition loop_iter :: "loop_cfg \<Rightarrow> cam_env \<Rightarrow> loop_state \<Rightarrow> loop_state \<times> event list" where
  "loop_iter cfg env st =
     (if camera_index cfg \<noteq> current_cam_index st then
        let rel = (if cap st \<noteq> None then [Released] else []);
            st1 = st\<lparr>smooth := None, frame_idx := 0,
                     current_cam_index := camera_index cfg, cap := None\<rparr>
        in (case camera_index cfg of
              None \<Rightarrow> (st1, rel @ [Slept])
            | Some i \<Rightarrow>
                if \<not> open_ok env then (st1, rel @ [OpenFailed i, Slept])
                else (case read_and_process cfg env (st1\<lparr>cap := Some i\<rparr>) of
                        (st2, evs) \<Rightarrow> (st2, rel @ [Opened i] @ evs)))
      else read_and_process cfg env st)"

text \<open>
  The \<^verbatim>\<open>while True\<close> loop over a finite run of iterations; an exception (lines 681-684)
  ends it.
\<close>

fun run_loop :: "(loop_cfg \<times> cam_env) list \<Rightarrow> loop_state \<Rightarrow> loop_state \<times> event list" where
  "run_loop [] st = (st, [])"
| "run_loop ((cfg, env) # rest) st =
     (case loop_iter cfg env st of
        (st1, evs) \<Rightarrow>
          if (\<exists>e \<in> set evs. case e of Raised x \<Rightarrow> True | _ \<Rightarrow> False) then (st1, evs)
          else (case run_loop rest st1 of (st2, evs2) \<Rightarrow> (st2, evs @ evs2)))"

text \<open>Distance of the smoothed centre to a target point.\<close>

definition center_dist :: "estimate \<Rightarrow> real \<times> real \<Rightarrow> real" where
  "center_dist s t = sqrt ((smooth_cx s - fst t)\<^sup>2 + (smooth_cy s - snd t)\<^sup>2)"

section \<open>Camera probing (list_cameras, lines 102-143)\<close>

text \<open>
  \<open>linux\<close> is \<^verbatim>\<open>platform.system() == "Linux"\<close>; \<open>usable i\<close> says that device \<open>i\<close>
  opens and delivers a frame; \<open>current_idx\<close> is the configured \<^verbatim>\<open>camera_index\<close>.
\<close>

fun probe_loop :: "(int \<Rightarrow> bool) \<Rightarrow> int option \<Rightarrow> int list \<Rightarrow> int list \<Rightarrow> int list" where
  "probe_loop usable current_idx [] cams = cams"
| "probe_loop usable current_idx (i # rest) cams =
     (if current_idx \<noteq> None \<and> Some i = current_idx then
        probe_loop usable current_idx rest (if i \<notin> set cams then cams @ [i] else cams)
      else
        probe_loop usable current_idx rest (if usable i then cams @ [i] else cams))"

definition list_cameras :: "bool \<Rightarrow> (int \<Rightarrow> bool) \<Rightarrow> int option \<Rightarrow> int \<Rightarrow> int list" where
  "list_cameras linux usable current_idx max_index =
     (let start = (if linux then 1 else 0);
          cams = probe_loop usable current_idx [start..max_index - 1] []
      in case current_idx of
           None \<Rightarrow> cams
         | Some c \<Rightarrow> if c \<notin> set cams then cams @ [c] else cams)"

section \<open>Configuration store (lines 34-93) and the POST handler (lines 469-509)\<close>

text \<open>
  Values are what \<^verbatim>\<open>json.loads\<close> yields. A float is a finite real, an infinity or
  NaN (the parser accepts \<^verbatim>\<open>Infinity\<close>, \<^verbatim>\<open>NaN\<close> and literals such as \<^verbatim>\<open>1e999\<close>).
  A dict is an association list with its keys in insertion order.
\<close>

datatype pyfloat = Fin real | PosInf | NegInf | NaN

datatype pyval =
    PNone
  | PBool bool
  | PInt int
  | PFloat pyfloat
  | PStr string
  | PList "pyval list"
  | PDict "(string \<times> pyval) list"

type_synonym dict = "(string \<times> pyval) list"

datatype py_exc = TypeError | ValueError | OverflowError | AttributeError

text \<open>
  \<^verbatim>\<open>int(v)\<close> and \<^verbatim>\<open>float(v)\<close>. Reading a number out of a string is Python's own
  parser, a parameter here (\<open>None\<close> is its \<^verbatim>\<open>ValueError\<close>). An int converts to a
  float unless it rounds to \<open>2 ^ 1024\<close> or beyond.
\<close>

definition FLOAT_LIMIT :: int where
  "FLOAT_LIMIT = 2 ^ 1024 - 2 ^ 970"

definition int_of :: "(string \<Rightarrow> int option) \<Rightarrow> pyval \<Rightarrow> py_exc + int" where
  "int_of parse_int v =
     (case v of
        PNone \<Rightarrow> Inl TypeError
      | PBool b \<Rightarrow> Inr (if b then 1 else 0)
      | PInt n \<Rightarrow> Inr n
      | PFloat f \<Rightarrow>
          (case f of
             Fin r \<Rightarrow> Inr (py_int r)
           | PosInf \<Rightarrow> Inl OverflowError
           | NegInf \<Rightarrow> Inl OverflowError
           | NaN \<Rightarrow> Inl ValueError)
      | PStr s \<Rightarrow> (case parse_int s of None \<Rightarrow> Inl ValueError | Some n \<Rightarrow> Inr n)
      | PList xs \<Rightarrow> Inl TypeError
      | PDict d \<Rightarrow> Inl TypeError)"

definition float_of :: "(string \<Rightarrow> pyfloat option) \<Rightarrow> pyval \<Rightarrow> py_exc + pyfloat" where
  "float_of parse_float v =
     (case v of
        PNone \<Rightarrow> Inl TypeError
      | PBool b \<Rightarrow> Inr (Fin (if b then 1 else 0))
      | PInt n \<Rightarrow> if FLOAT_LIMIT \<le> \<bar>n\<bar> then Inl OverflowError else Inr (Fin (of_int n))
      | PFloat f \<Rightarrow> Inr f
      | PStr s \<Rightarrow> (case parse_float s of None \<Rightarrow> Inl ValueError | Some f \<Rightarrow> Inr f)
      | PList xs \<Rightarrow> Inl TypeError
      | PDict d \<Rightarrow> Inl TypeError)"

text \<open>\<^verbatim>\<open>a <= 0\<close>, \<^verbatim>\<open>m < 1.0\<close> and \<^verbatim>\<open>v == 0\<close>: every comparison with NaN is false.\<close>

definition float_le :: "pyfloat \<Rightarrow> real \<Rightarrow> bool" where
  "float_le f c = (case f of Fin r \<Rightarrow> r \<le> c | PosInf \<Rightarrow> False | NegInf \<Rightarrow> True | NaN \<Rightarrow> False)"

definition float_less :: "pyfloat \<Rightarrow> real \<Rightarrow> bool" where
  "float_less f c = (case f of Fin r \<Rightarrow> r < c | PosInf \<Rightarrow> False | NegInf \<Rightarrow> True | NaN \<Rightarrow> False)"

definition eq_zero :: "pyval \<Rightarrow> bool" where
  "eq_zero v =
     (case v of
        PBool b \<Rightarrow> \<not> b
      | PInt n \<Rightarrow> n = 0
      | PFloat f \<Rightarrow> (case f of Fin r \<Rightarrow> r = 0 | _ \<Rightarrow> False)
      | _ \<Rightarrow> False)"

text \<open>\<^verbatim>\<open>isinstance(val, int)\<close>: \<^verbatim>\<open>bool\<close> is a subclass of \<^verbatim>\<open>int\<close>.\<close>

definition isinstance_int :: "pyval \<Rightarrow> bool" where
  "isinstance_int v = (case v of PInt n \<Rightarrow> True | PBool b \<Rightarrow> True | _ \<Rightarrow> False)"

text \<open>Lines 34-40.\<close>

definition default_config :: dict where
  "default_config =
     [(''camera_index'', PNone),
      (''orientation'', PStr ''none''),
      (''detection_every_n_frames'', PInt 10),
      (''smoothing_alpha'', PFloat (Fin (2 / 100))),
      (''margin_factor'', PFloat (Fin (28 / 10)))]"

text \<open>
  The file holds what \<^verbatim>\<open>json.loads\<close> reads back from it: writing a value with
  \<^verbatim>\<open>json.dumps\<close> and parsing the text again is taken to give the value back. A write
  that fails leaves the file as the environment has it.
\<close>

datatype file_state = Missing | Unparsable | Parsed pyval

datatype write_result = WriteOk | WriteFails file_state

record store =
  config :: dict
  config_file :: file_state

text \<open>
  Lines 60-62 and 89-91, the same loop in both places:
  \<^verbatim>\<open>for k, v in items: if k in config: config[k] = v\<close>.
\<close>

fun apply_items :: "dict \<Rightarrow> dict \<Rightarrow> dict" where
  "apply_items [] cfg = cfg"
| "apply_items ((k, v) # rest) cfg =
     apply_items rest (if k \<in> fst ` set cfg then AList.update k v cfg else cfg)"

definition load_persisted_config :: "bool \<Rightarrow> store \<Rightarrow> py_exc + store" where
  "load_persisted_config linux st =
     (case config_file st of
        Missing \<Rightarrow> Inr st
      | Unparsable \<Rightarrow> Inr st
      | Parsed data \<Rightarrow>
          (case data of
             PDict items \<Rightarrow>
               let c1 = apply_items items (config st);
                   c2 = (if linux \<and>
                           (case map_of c1 ''camera_index'' of
                              None \<Rightarrow> False | Some v \<Rightarrow> eq_zero v)
                         then AList.update ''camera_index'' PNone c1 else c1)
               in Inr (st\<lparr>config := c2\<rparr>)
           | _ \<Rightarrow> Inl AttributeError))"

definition persist_config :: "write_result \<Rightarrow> store \<Rightarrow> store" where
  "persist_config wr st =
     (case wr of
        WriteOk \<Rightarrow> st\<lparr>config_file := Parsed (PDict (config st))\<rparr>
      | WriteFails f \<Rightarrow> st\<lparr>config_file := f\<rparr>)"

definition get_config :: "store \<Rightarrow> dict" where
  "get_config st = config st"

definition update_config :: "write_result \<Rightarrow> dict \<Rightarrow> store \<Rightarrow> store" where
  "update_config wr changes st =
     persist_config wr (st\<lparr>config := apply_items changes (config st)\<rparr>)"

text \<open>
  Lines 474-504, one definition per \<^verbatim>\<open>if "..." in data\<close> block: what the block
  stores in \<^verbatim>\<open>changes\<close> for a submitted value. \<open>Inr None\<close> stores nothing;
  \<open>Inl\<close> is an exception the block does not catch (it catches \<^verbatim>\<open>TypeError\<close> and
  \<^verbatim>\<open>ValueError\<close> only).
\<close>

definition check_camera_index :: "pyval \<Rightarrow> py_exc + pyval option" where
  "check_camera_index v = Inr (if isinstance_int v then Some v else None)"

definition check_orientation :: "pyval \<Rightarrow> py_exc + pyval option" where
  "check_orientation v =
     Inr (if v = PStr ''none'' \<or> v = PStr ''cw'' \<or> v = PStr ''ccw'' then Some v else None)"

definition check_detection :: "(string \<Rightarrow> int option) \<Rightarrow> pyval \<Rightarrow> py_exc + pyval option" where
  "check_detection parse_int v =
     (case int_of parse_int v of
        Inl e \<Rightarrow> if e = TypeError \<or> e = ValueError then Inr None else Inl e
      | Inr n \<Rightarrow> Inr (Some (PInt (if n < 1 then 1 else n))))"

definition check_alpha :: "(string \<Rightarrow> pyfloat option) \<Rightarrow> pyval \<Rightarrow> py_exc + pyval option" where
  "check_alpha parse_float v =
     (case float_of parse_float v of
        Inl e \<Rightarrow> if e = TypeError \<or> e = ValueError then Inr None else Inl e
      | Inr a \<Rightarrow> Inr (Some (PFloat (if float_le a 0 then Fin (1 / 100) else a))))"

definition check_margin :: "(string \<Rightarrow> pyfloat option) \<Rightarrow> pyval \<Rightarrow> py_exc + pyval option" where
  "check_margin parse_float v =
     (case float_of parse_float v of
        Inl e \<Rightarrow> if e = TypeError \<or> e = ValueError then Inr None else Inl e
      | Inr m \<Rightarrow> Inr (Some (PFloat (if float_less m 1 then Fin 1 else m))))"

text \<open>One block: look the key up in the payload, check, assign into \<^verbatim>\<open>changes\<close>.\<close>

definition field_block ::
    "string \<Rightarrow> (pyval \<Rightarrow> py_exc + pyval option) \<Rightarrow> dict \<Rightarrow> dict \<Rightarrow> py_exc + dict" where
  "field_block k check data changes =
     (case map_of data k of
        None \<Rightarrow> Inr changes
      | Some v \<Rightarrow>
          (case check v of
             Inl e \<Rightarrow> Inl e
           | Inr None \<Rightarrow> Inr changes
           | Inr (Some v') \<Rightarrow> Inr (AList.update k v' changes)))"

definition then_block :: "py_exc + dict \<Rightarrow> (dict \<Rightarrow> py_exc + dict) \<Rightarrow> py_exc + dict" where
  "then_block r f = (case r of Inl e \<Rightarrow> Inl e | Inr changes \<Rightarrow> f changes)"

definition build_changes ::
    "(string \<Rightarrow> int option) \<Rightarrow> (string \<Rightarrow> pyfloat option) \<Rightarrow> dict \<Rightarrow> py_exc + dict" where
  "build_changes parse_int parse_float data =
     then_block (then_block (then_block (then_block
       (field_block ''camera_index'' check_camera_index data [])
       (field_block ''orientation'' check_orientation data))
       (field_block ''detection_every_n_frames'' (check_detection parse_int) data))
       (field_block ''smoothing_alpha'' (check_alpha parse_float) data))
       (field_block ''margin_factor'' (check_margin parse_float) data)"

text \<open>
  The POST branch of \<^verbatim>\<open>api_config\<close> on a payload that is a dict (a body that does
  not parse, or is falsy, is the empty dict by line 470). \<open>Inl\<close> is an exception that
  leaves the handler; \<open>Inr\<close> carries the store afterwards and the snapshot returned.
\<close>

definition api_config_post ::
    "(string \<Rightarrow> int option) \<Rightarrow> (string \<Rightarrow> pyfloat option) \<Rightarrow> write_result \<Rightarrow> dict \<Rightarrow> store
      \<Rightarrow> py_exc + store \<times> dict" where
  "api_config_post parse_int parse_float wr data st =
     (case build_changes parse_int parse_float data of
        Inl e \<Rightarrow> Inl e
      | Inr changes \<Rightarrow>
          let st' = (if changes \<noteq> [] then update_config wr changes st else st)
          in Inr (st', get_config st'))"

text \<open>Line 97: the configuration is loaded once at start, over the defaults.\<close>

definition startup :: "bool \<Rightarrow> file_state \<Rightarrow> py_exc + store" where
  "startup linux file =
     load_persisted_config linux \<lparr>config = default_config, config_file = file\<rparr>"

text \<open>The check that the handler's block for key \<open>k\<close> applies.\<close>

definition field_check ::
    "(string \<Rightarrow> int option) \<Rightarrow> (string \<Rightarrow> pyfloat option) \<Rightarrow> string
      \<Rightarrow> pyval \<Rightarrow> py_exc + pyval option" where
  "field_check parse_int parse_float k =
     (if k = ''camera_index'' then check_camera_index
      else if k = ''orientation'' then check_orientation
      else if k = ''detection_every_n_frames'' then check_detection parse_int
      else if k = ''smoothing_alpha'' then check_alpha parse_float
      else if k = ''margin_factor'' then check_margin parse_float
      else (\<lambda>v. Inr None))"




text \<open>
  The recognised keys, and the shape the store keeps: a dict with exactly these keys.
  For a payload \<open>data\<close>: whether the block of key \<open>k\<close> lets an exception escape,
  and the value it puts into \<^verbatim>\<open>changes\<close>, if any.
\<close>

definition config_keys :: "string list" where
  "config_keys = map fst default_config"




text \<open>The value under key \<open>k\<close> once the items are stored as they are.\<close>

definition stored_verbatim :: "dict \<Rightarrow> dict \<Rightarrow> string \<Rightarrow> pyval option" where
  "stored_verbatim items cfg k =
     (if k \<in> fst ` set cfg
      then (case map_of items k of Some v \<Rightarrow> Some v | None \<Rightarrow> map_of cfg k)
      else None)"

section \<open>Crop planning: the region stays in the frame\<close>

lemma np_slice_inside:
  assumes "0 \<le> n"
  shows "0 \<le> fst (np_slice n a b) \<and> 0 \<le> snd (np_slice n a b)
     \<and> fst (np_slice n a b) + snd (np_slice n a b) \<le> n"
  using assms by (auto simp: np_slice_def np_bound_def Let_def)

lemma np_slice_plain: "0 \<le> a \<Longrightarrow> a \<le> b \<Longrightarrow> b \<le> n \<Longrightarrow> np_slice n a b = (a, b - a)"
  by (simp add: np_slice_def np_bound_def Let_def)

lemma slice_frame_inside:
  assumes "0 \<le> h_f" "0 \<le> w_f"
  shows "0 \<le> crop_x (slice_frame h_f w_f y1 y2 x1 x2)
     \<and> 0 \<le> crop_cols (slice_frame h_f w_f y1 y2 x1 x2)
     \<and> crop_x (slice_frame h_f w_f y1 y2 x1 x2) + crop_cols (slice_frame h_f w_f y1 y2 x1 x2) \<le> w_f
     \<and> 0 \<le> crop_y (slice_frame h_f w_f y1 y2 x1 x2)
     \<and> 0 \<le> crop_rows (slice_frame h_f w_f y1 y2 x1 x2)
     \<and> crop_y (slice_frame h_f w_f y1 y2 x1 x2) + crop_rows (slice_frame h_f w_f y1 y2 x1 x2) \<le> h_f"
  using np_slice_inside [OF assms(1), of y1 y2] np_slice_inside [OF assms(2), of x1 x2]
  by (auto simp: slice_frame_def split: prod.splits)

lemma slice_frame_plain:
  "0 \<le> y1 \<Longrightarrow> y1 \<le> y2 \<Longrightarrow> y2 \<le> h_f \<Longrightarrow> 0 \<le> x1 \<Longrightarrow> x1 \<le> x2 \<Longrightarrow> x2 \<le> w_f \<Longrightarrow>
   slice_frame h_f w_f y1 y2 x1 x2 =
     \<lparr>crop_x = x1, crop_y = y1, crop_cols = x2 - x1, crop_rows = y2 - y1\<rparr>"
  by (simp add: slice_frame_def np_slice_plain)

lemma center_crop_eq:
  assumes "0 \<le> h_f" "0 \<le> w_f"
  shows "center_crop h_f w_f =
     \<lparr>crop_x = (w_f - min h_f w_f) div 2, crop_y = (h_f - min h_f w_f) div 2,
      crop_cols = min h_f w_f, crop_rows = min h_f w_f\<rparr>"
proof -
  let ?sz = "min h_f w_f"
  let ?x0 = "(w_f - ?sz) div 2"
  let ?y0 = "(h_f - ?sz) div 2"
  have x: "0 \<le> ?x0" "?x0 + ?sz \<le> w_f" using assms by auto
  have y: "0 \<le> ?y0" "?y0 + ?sz \<le> h_f" using assms by auto
  have s: "0 \<le> ?sz" using assms by simp
  have "slice_frame h_f w_f ?y0 (?y0 + ?sz) ?x0 (?x0 + ?sz) =
     \<lparr>crop_x = ?x0, crop_y = ?y0, crop_cols = (?x0 + ?sz) - ?x0,
      crop_rows = (?y0 + ?sz) - ?y0\<rparr>"
    using x y s by (intro slice_frame_plain) linarith+
  then show ?thesis by (simp add: center_crop_def Let_def)
qed

lemma center_crop_inside:
  assumes "0 \<le> h_f" "0 \<le> w_f"
  shows "crop_cols (center_crop h_f w_f) = crop_rows (center_crop h_f w_f)
     \<and> crop_cols (center_crop h_f w_f) = min h_f w_f
     \<and> 0 \<le> crop_x (center_crop h_f w_f)
     \<and> crop_x (center_crop h_f w_f) + crop_cols (center_crop h_f w_f) \<le> w_f
     \<and> 0 \<le> crop_y (center_crop h_f w_f)
     \<and> crop_y (center_crop h_f w_f) + crop_rows (center_crop h_f w_f) \<le> h_f"
  unfolding center_crop_eq [OF assms] using assms by auto




text \<open>Whatever the estimate, the plan is the centred crop or a square, non-empty slice.\<close>

lemma plan_crop_cases:
  "plan_crop h_f w_f sm margin = center_crop h_f w_f
   \<or> (\<exists>y1 y2 x1 x2. plan_crop h_f w_f sm margin = slice_frame h_f w_f y1 y2 x1 x2
        \<and> crop_rows (slice_frame h_f w_f y1 y2 x1 x2)
            = crop_cols (slice_frame h_f w_f y1 y2 x1 x2)
        \<and> crop_cols (slice_frame h_f w_f y1 y2 x1 x2) \<noteq> 0)"
proof (cases sm)
  case None
  then show ?thesis by (simp add: plan_crop_def)
next
  case (Some s)
  define sz where "sz = crop_size h_f w_f s margin"
  define x1 where "x1 = clamp_axis w_f sz (py_round (smooth_cx s) - sz div 2)"
  define y1 where "y1 = clamp_axis h_f sz (py_round (smooth_cy s) - sz div 2)"
  define c where "c = slice_frame h_f w_f y1 (y1 + sz) x1 (x1 + sz)"
  have eq: "plan_crop h_f w_f sm margin =
      (if crop_rows c * crop_cols c = 0 \<or> crop_rows c \<noteq> crop_cols c
       then center_crop h_f w_f else c)"
    using Some by (simp add: plan_crop_def Let_def c_def x1_def y1_def sz_def)
  show ?thesis
  proof (cases "crop_rows c * crop_cols c = 0 \<or> crop_rows c \<noteq> crop_cols c")
    case True
    then show ?thesis using eq by simp
  next
    case False
    then have "plan_crop h_f w_f sm margin = c" "crop_rows c = crop_cols c" "crop_cols c \<noteq> 0"
      using eq by auto
    then show ?thesis unfolding c_def by blast
  qed
qed



lemma plan_crop_square:
  assumes "0 < h_f" "0 < w_f"
  shows "crop_rows (plan_crop h_f w_f sm margin) = crop_cols (plan_crop h_f w_f sm margin)
    \<and> 0 < crop_cols (plan_crop h_f w_f sm margin)"
proof -
  have nn: "0 \<le> h_f" "0 \<le> w_f" using assms by simp_all
  consider (center) "plan_crop h_f w_f sm margin = center_crop h_f w_f"
    | (slice) y1 y2 x1 x2 where
        "plan_crop h_f w_f sm margin = slice_frame h_f w_f y1 y2 x1 x2"
        "crop_rows (slice_frame h_f w_f y1 y2 x1 x2)
           = crop_cols (slice_frame h_f w_f y1 y2 x1 x2)"
        "crop_cols (slice_frame h_f w_f y1 y2 x1 x2) \<noteq> 0"
    using plan_crop_cases [of h_f w_f sm margin] by blast
  then show ?thesis
  proof cases
    case center
    show ?thesis unfolding center using center_crop_inside [OF nn] assms by linarith
  next
    case slice
    show ?thesis
      unfolding slice(1) using slice(2,3) slice_frame_inside [OF nn, of y1 y2 x1 x2]
      by linarith
  qed
qed

lemma plan_crop_resize:
  "0 < h_f \<Longrightarrow> 0 < w_f \<Longrightarrow> resize_crop (plan_crop h_f w_f sm margin) = Inr (640, 640)"
  using plan_crop_square [of h_f w_f sm margin]
  by (simp add: resize_crop_def OUT_W_def OUT_H_def)













section \<open>The smoothed estimate under the EMA update\<close>

lemma ema_diff: "ema alpha old t - t = (1 - alpha) * (old - t)"
  by (simp add: ema_def algebra_simps)

lemma center_dist_nonneg: "0 \<le> center_dist s t"
  by (simp add: center_dist_def)

text \<open>One update towards \<open>(tx, ty)\<close> scales the distance to it by \<open>1 - alpha\<close>.\<close>

lemma center_dist_ema:
  assumes "0 < alpha" "alpha < 1"
  shows "center_dist \<lparr>smooth_cx = ema alpha (smooth_cx s) tx,
                      smooth_cy = ema alpha (smooth_cy s) ty,
                      smooth_size = z\<rparr> (tx, ty)
         = (1 - alpha) * center_dist s (tx, ty)"
proof -
  have "(ema alpha (smooth_cx s) tx - tx)\<^sup>2 + (ema alpha (smooth_cy s) ty - ty)\<^sup>2
      = (1 - alpha)\<^sup>2 * ((smooth_cx s - tx)\<^sup>2 + (smooth_cy s - ty)\<^sup>2)"
    by (simp add: ema_diff power_mult_distrib distrib_left)
  then have "center_dist \<lparr>smooth_cx = ema alpha (smooth_cx s) tx,
                      smooth_cy = ema alpha (smooth_cy s) ty,
                      smooth_size = z\<rparr> (tx, ty)
      = sqrt ((1 - alpha)\<^sup>2 * ((smooth_cx s - tx)\<^sup>2 + (smooth_cy s - ty)\<^sup>2))"
    by (simp add: center_dist_def)
  also have "\<dots> = \<bar>1 - alpha\<bar> * sqrt ((smooth_cx s - tx)\<^sup>2 + (smooth_cy s - ty)\<^sup>2)"
    by (simp add: real_sqrt_mult)
  finally show ?thesis using assms by (simp add: center_dist_def)
qed

lemma face_update_Some:
  "max_face f fs = (x, y, w, h) \<Longrightarrow>
   face_update alpha (Some s) (f # fs) =
     Some \<lparr>smooth_cx = ema alpha (smooth_cx s) (of_int (x + w div 2)),
           smooth_cy = ema alpha (smooth_cy s) (of_int (y + h div 2)),
           smooth_size = ema alpha (smooth_size s) (of_int (max w h))\<rparr>"
  by (simp add: face_update_def Let_def)

lemma face_update_keeps: "face_update alpha (Some s) faces \<noteq> None"
  by (auto simp: face_update_def Let_def split: list.splits prod.splits)

text \<open>
  C8 (amended). In exact arithmetic, for every alpha strictly between 0 and 1, every
  existing smoothed estimate and every detection, one EMA update multiplies the distance
  from the smoothed centre to the centre of the detection by \<open>1 - alpha\<close>: the distance
  strictly decreases when the smoothed centre differs from the target, and stays 0 when
  the smoothed centre is already at the target.
\<close>

theorem ema_step_distance:
  assumes "0 < alpha" "alpha < 1" "max_face f fs = (x, y, w, h)"
  shows "\<exists>s'. face_update alpha (Some s) (f # fs) = Some s'
      \<and> center_dist s' (of_int (x + w div 2), of_int (y + h div 2))
          = (1 - alpha) * center_dist s (of_int (x + w div 2), of_int (y + h div 2))
      \<and> (center_dist s (of_int (x + w div 2), of_int (y + h div 2)) \<noteq> 0 \<longrightarrow>
           center_dist s' (of_int (x + w div 2), of_int (y + h div 2))
             < center_dist s (of_int (x + w div 2), of_int (y + h div 2)))
      \<and> (center_dist s (of_int (x + w div 2), of_int (y + h div 2)) = 0 \<longrightarrow>
           center_dist s' (of_int (x + w div 2), of_int (y + h div 2)) = 0)"
proof -
  let ?t = "(of_int (x + w div 2) :: real, of_int (y + h div 2) :: real)"
  let ?s' = "\<lparr>smooth_cx = ema alpha (smooth_cx s) (of_int (x + w div 2)),
           smooth_cy = ema alpha (smooth_cy s) (of_int (y + h div 2)),
           smooth_size = ema alpha (smooth_size s) (of_int (max w h))\<rparr>"
  have upd: "face_update alpha (Some s) (f # fs) = Some ?s'"
    using assms(3) by (rule face_update_Some)
  have d: "center_dist ?s' ?t = (1 - alpha) * center_dist s ?t"
    using assms(1,2) by (rule center_dist_ema)
  have lt: "center_dist s ?t \<noteq> 0 \<longrightarrow> center_dist ?s' ?t < center_dist s ?t"
  proof
    assume "center_dist s ?t \<noteq> 0"
    then have pos: "0 < center_dist s ?t"
      using center_dist_nonneg [of s ?t] by linarith
    have "(1 - alpha) * center_dist s ?t < 1 * center_dist s ?t"
      using assms(1) pos by (intro mult_strict_right_mono) simp_all
    then show "center_dist ?s' ?t < center_dist s ?t" using d by simp
  qed
  have z: "center_dist s ?t = 0 \<longrightarrow> center_dist ?s' ?t = 0" using d by simp
  show ?thesis using upd d lt z by blast
qed

theorem ema_step_distance_witness:
  "(0::real) < 1 / 2 \<and> (1 / 2 :: real) < 1
   \<and> max_face (270, 190, 100, 100) [] = (270, 190, 100, 100)
   \<and> center_dist
        (the (face_update (1 / 2)
                (Some \<lparr>smooth_cx = 300, smooth_cy = 240, smooth_size = 100\<rparr>)
                [(270, 190, 100, 100)])) (320, 240)
       < center_dist \<lparr>smooth_cx = 300, smooth_cy = 240, smooth_size = 100\<rparr> (320, 240)"
proof -
  have d: "center_dist \<lparr>smooth_cx = 300, smooth_cy = 240, smooth_size = 100\<rparr> (320, 240) = 20"
    by (simp add: center_dist_def)
  show ?thesis
    using ema_step_distance [of "1 / 2" "(270, 190, 100, 100)" "[]" 270 190 100 100
        "\<lparr>smooth_cx = 300, smooth_cy = 240, smooth_size = 100\<rparr>"] d
    by auto
qed

text \<open>
  The claim as stated fails for an estimate whose centre is already the target: the
  detection \<open>(270, 190, 100, 100)\<close> has centre (320, 240), the update leaves the
  estimate (320, 240, 100) as it is, and the distance 0 does not decrease.
\<close>

theorem ema_step_counterexample:
  "face_update (1 / 2) (Some \<lparr>smooth_cx = 320, smooth_cy = 240, smooth_size = 100\<rparr>)
       [(270, 190, 100, 100)]
     = Some \<lparr>smooth_cx = 320, smooth_cy = 240, smooth_size = 100\<rparr>
   \<and> \<not> center_dist \<lparr>smooth_cx = 320, smooth_cy = 240, smooth_size = 100\<rparr> (320, 240)
        < center_dist \<lparr>smooth_cx = 320, smooth_cy = 240, smooth_size = 100\<rparr> (320, 240)"
  by (simp add: face_update_def ema_def Let_def)

section \<open>The loop: what an iteration does to the device and the estimate\<close>

lemma process_frame_state:
  "fst (process_frame cfg env st frame) =
     st\<lparr>smooth := (if (frame_idx st + 1) mod max 1 (detection_every_n_frames cfg) = 0
                    then face_update (smoothing_alpha cfg) (smooth st) (detected env)
                    else smooth st),
        frame_idx := frame_idx st + 1\<rparr>"
  by (simp add: process_frame_def Let_def split: sum.splits prod.splits)

lemma process_frame_no_device_event:
  "Released \<notin> set (snd (process_frame cfg env st frame))
   \<and> Opened i \<notin> set (snd (process_frame cfg env st frame))"
  by (simp add: process_frame_def Let_def split: sum.splits prod.splits)

lemma process_frame_sent:
  assumes "0 < fst frame" "0 < snd frame"
  shows "process_frame cfg env st frame =
     (st\<lparr>smooth := (if (frame_idx st + 1) mod max 1 (detection_every_n_frames cfg) = 0
                    then face_update (smoothing_alpha cfg) (smooth st) (detected env)
                    else smooth st),
        frame_idx := frame_idx st + 1\<rparr>, [Sent 640 640])"
proof -
  have "0 < fst (apply_orientation frame (orientation cfg))
      \<and> 0 < snd (apply_orientation frame (orientation cfg))"
    using assms by (simp add: apply_orientation_def)
  then show ?thesis
    by (simp add: process_frame_def Let_def plan_crop_resize)
qed



lemma read_and_process_state:
  "cap (fst (read_and_process cfg env st)) = cap st
   \<and> current_cam_index (fst (read_and_process cfg env st)) = current_cam_index st
   \<and> (smooth (fst (read_and_process cfg env st)) = smooth st
      \<or> smooth (fst (read_and_process cfg env st))
          = face_update (smoothing_alpha cfg) (smooth st) (detected env))"
  by (simp add: read_and_process_def process_frame_state split: option.splits)

lemma read_and_process_no_device_event:
  "Released \<notin> set (snd (read_and_process cfg env st))
   \<and> Opened i \<notin> set (snd (read_and_process cfg env st))"
  using process_frame_no_device_event
  by (simp add: read_and_process_def split: option.splits)

text \<open>
  C1 (amended). Whatever the orientation field is and was, an iteration whose
  \<open>camera_index\<close> is the one already held neither releases nor reopens the capture
  device, and it does not reset the smoothed estimate: the estimate is left as it was,
  or blended with that frame's detection when detection runs, so an existing estimate
  still exists after the frame. (The loop keeps no record of the previous orientation;
  the estimate is reset only when \<open>camera_index\<close> changes.)
\<close>

theorem orientation_change_keeps_estimate:
  assumes "camera_index cfg = current_cam_index st"
    and "loop_iter cfg env st = (st', evs)"
  shows "Released \<notin> set evs \<and> (\<forall>i. Opened i \<notin> set evs)
     \<and> cap st' = cap st \<and> current_cam_index st' = current_cam_index st
     \<and> (smooth st' = smooth st
        \<or> smooth st' = face_update (smoothing_alpha cfg) (smooth st) (detected env))
     \<and> (smooth st \<noteq> None \<longrightarrow> smooth st' \<noteq> None)"
proof -
  have rp: "read_and_process cfg env st = (st', evs)"
    using assms by (simp add: loop_iter_def)
  have ev: "Released \<notin> set evs \<and> (\<forall>i. Opened i \<notin> set evs)"
    using read_and_process_no_device_event [of cfg env st] rp by simp
  have stt: "cap st' = cap st \<and> current_cam_index st' = current_cam_index st
     \<and> (smooth st' = smooth st
        \<or> smooth st' = face_update (smoothing_alpha cfg) (smooth st) (detected env))"
    using read_and_process_state [of cfg env st] rp by simp
  have keep: "smooth st \<noteq> None \<longrightarrow> smooth st' \<noteq> None"
  proof
    assume "smooth st \<noteq> None"
    then obtain s where s: "smooth st = Some s" by auto
    show "smooth st' \<noteq> None"
      using stt s face_update_keeps [of "smoothing_alpha cfg" s "detected env"] by auto
  qed
  show ?thesis using ev stt keep by blast
qed

theorem orientation_change_keeps_estimate_witness:
  "smooth (fst (loop_iter
       \<lparr>camera_index = Some 1, orientation = ''cw'',
        detection_every_n_frames = 10, smoothing_alpha = 2 / 100, margin_factor = 28 / 10\<rparr>
       \<lparr>open_ok = True, read_ret = Some (480, 640), detected = []\<rparr>
       \<lparr>smooth = Some \<lparr>smooth_cx = 320, smooth_cy = 240, smooth_size = 100\<rparr>,
        frame_idx = 1, current_cam_index = Some 1, cap = Some 1\<rparr>)) \<noteq> None
   \<and> Opened 1 \<notin> set (snd (loop_iter
       \<lparr>camera_index = Some 1, orientation = ''cw'',
        detection_every_n_frames = 10, smoothing_alpha = 2 / 100, margin_factor = 28 / 10\<rparr>
       \<lparr>open_ok = True, read_ret = Some (480, 640), detected = []\<rparr>
       \<lparr>smooth = Some \<lparr>smooth_cx = 320, smooth_cy = 240, smooth_size = 100\<rparr>,
        frame_idx = 1, current_cam_index = Some 1, cap = Some 1\<rparr>))"
  using orientation_change_keeps_estimate
    [of "\<lparr>camera_index = Some 1, orientation = ''cw'',
          detection_every_n_frames = 10, smoothing_alpha = 2 / 100, margin_factor = 28 / 10\<rparr>"
        "\<lparr>smooth = Some \<lparr>smooth_cx = 320, smooth_cy = 240, smooth_size = 100\<rparr>,
          frame_idx = 1, current_cam_index = Some 1, cap = Some 1\<rparr>"
        "\<lparr>open_ok = True, read_ret = Some (480, 640), detected = []\<rparr>",
     OF _ surjective_pairing]
  by simp

text \<open>
  The claim as stated fails: a frame processed with orientation \<open>none\<close> and then a
  frame processed with orientation \<open>cw\<close>, on the same camera, leave the estimate in
  place.
\<close>

theorem orientation_change_counterexample:
  "smooth (fst (run_loop
      [(\<lparr>camera_index = Some 1, orientation = ''none'',
         detection_every_n_frames = 10, smoothing_alpha = 2 / 100, margin_factor = 28 / 10\<rparr>,
        \<lparr>open_ok = True, read_ret = Some (480, 640), detected = []\<rparr>),
       (\<lparr>camera_index = Some 1, orientation = ''cw'',
         detection_every_n_frames = 10, smoothing_alpha = 2 / 100, margin_factor = 28 / 10\<rparr>,
        \<lparr>open_ok = True, read_ret = Some (480, 640), detected = []\<rparr>)]
      \<lparr>smooth = Some \<lparr>smooth_cx = 320, smooth_cy = 240, smooth_size = 100\<rparr>,
       frame_idx = 0, current_cam_index = Some 1, cap = Some 1\<rparr>)) \<noteq> None"
  by (simp add: loop_iter_def read_and_process_def process_frame_sent)

section \<open>Camera probing: the selected index and the reserved one\<close>

lemma probe_loop_within: "set (probe_loop usable cur xs cams) \<subseteq> set cams \<union> set xs"
proof (induction xs arbitrary: cams)
  case Nil
  then show ?case by simp
next
  case (Cons i xs)
  show ?case using Cons.IH [of "cams @ [i]"] Cons.IH [of cams] by auto
qed

text \<open>
  C3 (amended). For every max_index, every probe outcome and every configuration, the
  enumeration result contains the currently selected camera index once one is set; on
  Linux it contains the reserved index 0 exactly when 0 is the currently selected index.
\<close>

theorem list_cameras_current_and_reserved:
  "(\<forall>c. current_idx = Some c \<longrightarrow> c \<in> set (list_cameras linux usable current_idx max_index))
   \<and> (linux \<longrightarrow> (0 \<in> set (list_cameras linux usable current_idx max_index)
                    \<longleftrightarrow> current_idx = Some 0))"
proof -
  have a: "\<forall>c. current_idx = Some c \<longrightarrow>
      c \<in> set (list_cameras linux usable current_idx max_index)"
    by (auto simp: list_cameras_def Let_def)
  have b: "0 \<in> set (list_cameras True usable current_idx max_index) \<longleftrightarrow> current_idx = Some 0"
  proof -
    have "0 \<notin> set (probe_loop usable current_idx [1..max_index - 1] [])"
      using probe_loop_within [of usable current_idx "[1..max_index - 1]" "[]"] by auto
    then show ?thesis by (auto simp: list_cameras_def Let_def split: option.splits)
  qed
  show ?thesis using a b by auto
qed

theorem list_cameras_witness:
  "3 \<in> set (list_cameras True (\<lambda>i. False) (Some 3) 10)
   \<and> 0 \<notin> set (list_cameras True (\<lambda>i. False) (Some 3) 10)"
  using list_cameras_current_and_reserved [of "Some 3" True "\<lambda>i. False" 10]
  by simp

text \<open>
  The claim as stated fails on Linux when the selected index is 0 (the POST handler
  accepts it): the result then contains the reserved index.
\<close>

theorem list_cameras_counterexample:
  "0 \<in> set (list_cameras True (\<lambda>i. False) (Some 0) 10)"
  by (simp add: list_cameras_def Let_def upto.simps)

section \<open>The store and the POST handler\<close>

lemma keys_update_present:
  "k \<in> fst ` set al \<Longrightarrow> map fst (AList.update k v al) = map fst al"
  by (simp add: update_keys)

lemma apply_items_keys: "map fst (apply_items items cfg) = map fst cfg"
  by (induction items cfg rule: apply_items.induct) (simp_all add: keys_update_present)

lemma map_of_apply_items:
  "distinct (map fst items) \<Longrightarrow>
   map_of (apply_items items cfg) k =
     (if k \<in> fst ` set cfg
      then (case map_of items k of Some v \<Rightarrow> Some v | None \<Rightarrow> map_of cfg k)
      else None)"
proof (induction items cfg rule: apply_items.induct)
  case (1 cfg)
  then show ?case by (simp add: map_of_eq_None_iff)
next
  case (2 k' v' rest cfg)
  define cfg' where "cfg' = (if k' \<in> fst ` set cfg then AList.update k' v' cfg else cfg)"
  have keys: "fst ` set cfg' = fst ` set cfg"
    unfolding cfg'_def by (auto simp: dom_update)
  have m: "map_of cfg' = (if k' \<in> fst ` set cfg then (map_of cfg)(k' \<mapsto> v') else map_of cfg)"
    unfolding cfg'_def by (simp add: update_conv')
  have d: "distinct (map fst rest)" "k' \<notin> fst ` set rest" using 2(2) by auto
  have ih: "map_of (apply_items rest cfg') k =
     (if k \<in> fst ` set cfg
      then (case map_of rest k of Some v \<Rightarrow> Some v | None \<Rightarrow> map_of cfg' k)
      else None)"
    using 2(1) [OF d(1)] keys unfolding cfg'_def by simp
  have step: "apply_items ((k', v') # rest) cfg = apply_items rest cfg'"
    by (simp add: cfg'_def)
  have none: "map_of rest k' = None" using d(2) by (simp add: map_of_eq_None_iff)
  show ?case
  proof (cases "k = k'")
    case True
    then show ?thesis unfolding step ih using m none by simp
  next
    case False
    then have "map_of cfg' k = map_of cfg k" using m by simp
    then show ?thesis unfolding step ih using False by (simp split: option.splits)
  qed
qed


lemma config_shape:
  assumes "map fst cfg = map fst default_config"
  shows "\<exists>v1 v2 v3 v4 v5. cfg =
     [(''camera_index'', v1), (''orientation'', v2), (''detection_every_n_frames'', v3),
      (''smoothing_alpha'', v4), (''margin_factor'', v5)]"
proof -
  have len: "length cfg = 5" using arg_cong [OF assms, of length] by (simp add: default_config_def)
  then obtain p1 p2 p3 p4 p5 where c: "cfg = [p1, p2, p3, p4, p5]"
    by (auto simp: length_Suc_conv eval_nat_numeral)
  show ?thesis using assms unfolding c default_config_def
    by (cases p1, cases p2, cases p3, cases p4, cases p5) simp
qed

lemma reload_identity:
  assumes "map fst cfg = map fst default_config"
  shows "apply_items cfg default_config = cfg"
proof -
  obtain v1 v2 v3 v4 v5 where c: "cfg =
     [(''camera_index'', v1), (''orientation'', v2), (''detection_every_n_frames'', v3),
      (''smoothing_alpha'', v4), (''margin_factor'', v5)]"
    using config_shape [OF assms] by blast
  show ?thesis unfolding c default_config_def by simp
qed




lemma config_keys_simp:
  "config_keys = [''camera_index'', ''orientation'', ''detection_every_n_frames'',
                  ''smoothing_alpha'', ''margin_factor'']"
  by (simp add: config_keys_def default_config_def)
















lemma startup_keys:
  assumes "startup linux fs = Inr st"
  shows "map fst (config st) = config_keys"
proof (cases fs)
  case Missing
  then show ?thesis using assms
    by (auto simp: startup_def load_persisted_config_def config_keys_def)
next
  case Unparsable
  then show ?thesis using assms
    by (auto simp: startup_def load_persisted_config_def config_keys_def)
next
  case (Parsed data)
  then obtain items where d: "data = PDict items"
    using assms by (cases data) (simp_all add: startup_def load_persisted_config_def)
  define c1 where "c1 = apply_items items default_config"
  have k1: "map fst c1 = config_keys"
    by (simp add: c1_def apply_items_keys config_keys_def)
  have "''camera_index'' \<in> set (map fst c1)"
    unfolding k1 by (simp add: config_keys_simp)
  then have cam: "''camera_index'' \<in> fst ` set c1" by simp
  define z where "z = (linux \<and> (case map_of c1 ''camera_index'' of
                              None \<Rightarrow> False | Some v \<Rightarrow> eq_zero v))"
  have "startup linux fs =
      Inr \<lparr>config = (if z then AList.update ''camera_index'' PNone c1 else c1),
           config_file = fs\<rparr>"
    unfolding Parsed d z_def c1_def
    by (simp add: startup_def load_persisted_config_def Let_def)
  then have "config st = (if z then AList.update ''camera_index'' PNone c1 else c1)"
    using assms by auto
  then show ?thesis using k1 keys_update_present [OF cam, of PNone] by (cases z) simp_all
qed

text \<open>Every operation keeps the keys of the configuration.\<close>

lemma update_config_keys:
  "map fst (config (update_config wr changes st)) = map fst (config st)"
  by (simp add: update_config_def persist_config_def apply_items_keys
      split: write_result.splits)

lemma api_config_post_keys:
  assumes "api_config_post pint pflt wr data st = Inr (st', snapshot)"
  shows "map fst (config st') = map fst (config st)"
proof (cases "build_changes pint pflt data")
  case (Inl e)
  then show ?thesis using assms by (simp add: api_config_post_def)
next
  case (Inr changes)
  then have "st' = (if changes \<noteq> [] then update_config wr changes st else st)"
    using assms by (simp add: api_config_post_def Let_def)
  then show ?thesis by (simp add: update_config_keys)
qed

text \<open>The only exception that escapes a block is \<^verbatim>\<open>OverflowError\<close>.\<close>

lemma int_of_exc: "int_of pint v \<noteq> Inl AttributeError"
proof (cases v)
  case (PFloat f)
  then show ?thesis by (cases f) (simp_all add: int_of_def)
next
  case (PStr s)
  then show ?thesis by (cases "pint s") (simp_all add: int_of_def)
qed (simp_all add: int_of_def)

lemma float_of_exc: "float_of pflt v \<noteq> Inl AttributeError"
proof (cases v)
  case (PStr s)
  then show ?thesis by (cases "pflt s") (simp_all add: float_of_def)
qed (simp_all add: float_of_def)

lemma check_detection_escapes: "check_detection pint v = Inl e \<Longrightarrow> e = OverflowError"
  using int_of_exc [of pint v]
  by (cases "int_of pint v"; cases e) (simp_all add: check_detection_def split: if_splits)

lemma check_alpha_escapes: "check_alpha pflt v = Inl e \<Longrightarrow> e = OverflowError"
  using float_of_exc [of pflt v]
  by (cases "float_of pflt v"; cases e) (simp_all add: check_alpha_def split: if_splits)

lemma check_margin_escapes: "check_margin pflt v = Inl e \<Longrightarrow> e = OverflowError"
  using float_of_exc [of pflt v]
  by (cases "float_of pflt v"; cases e) (simp_all add: check_margin_def split: if_splits)

lemma field_check_escapes:
  assumes "field_check pint pflt k v = Inl e"
  shows "e = OverflowError"
proof -
  have "check_camera_index v \<noteq> Inl e" "check_orientation v \<noteq> Inl e"
    by (simp_all add: check_camera_index_def check_orientation_def)
  then show ?thesis
    using assms check_detection_escapes [of pint v e] check_alpha_escapes [of pflt v e]
      check_margin_escapes [of pflt v e]
    by (simp add: field_check_def split: if_splits)
qed



lemma startup_after_persist:
  assumes wf: "map fst (config st) = config_keys"
  shows "startup linux (config_file (persist_config WriteOk st)) =
     Inr \<lparr>config =
            (if linux \<and> (case map_of (config st) ''camera_index'' of
                            None \<Rightarrow> False | Some v \<Rightarrow> eq_zero v)
             then AList.update ''camera_index'' PNone (config st) else config st),
          config_file = Parsed (PDict (config st))\<rparr>"
proof -
  have "apply_items (config st) default_config = config st"
    using wf by (intro reload_identity) (simp add: config_keys_def)
  then show ?thesis
    by (simp add: startup_def load_persisted_config_def persist_config_def Let_def)
qed

text \<open>
  C7 (amended). For every configuration snapshot with the five keys, persisting it and
  then loading it at start yields the same snapshot, except that on Linux a
  \<open>camera_index\<close> equal to 0 comes back as None.
\<close>

theorem persist_reload:
  assumes "map fst (config st) = config_keys"
  shows "\<exists>st'. startup linux (config_file (persist_config WriteOk st)) = Inr st'
     \<and> get_config st' =
         (if linux \<and> (case map_of (get_config st) ''camera_index'' of
                         None \<Rightarrow> False | Some v \<Rightarrow> eq_zero v)
          then AList.update ''camera_index'' PNone (get_config st) else get_config st)"
  unfolding startup_after_persist [OF assms] get_config_def by simp

lemma update_config_config:
  "config (update_config wr changes st) = apply_items changes (config st)"
  by (simp add: update_config_def persist_config_def split: write_result.splits)

lemma map_of_apply_items_verbatim:
  "distinct (map fst items) \<Longrightarrow> map_of (apply_items items cfg) k = stored_verbatim items cfg k"
  by (simp add: map_of_apply_items stored_verbatim_def)

lemma load_parsed:
  assumes "config_file st = Parsed (PDict items)" "distinct (map fst items)"
  shows "\<exists>st'. load_persisted_config linux st = Inr st'
     \<and> map fst (config st') = map fst (config st)
     \<and> map_of (config st') k =
         (if linux \<and> k = ''camera_index''
             \<and> (case stored_verbatim items (config st) ''camera_index'' of
                   None \<Rightarrow> False | Some v \<Rightarrow> eq_zero v)
          then Some PNone else stored_verbatim items (config st) k)"
proof -
  define c1 where "c1 = apply_items items (config st)"
  define z where "z = (linux \<and> (case map_of c1 ''camera_index'' of
                              None \<Rightarrow> False | Some v \<Rightarrow> eq_zero v))"
  define c2 where "c2 = (if z then AList.update ''camera_index'' PNone c1 else c1)"
  have ld: "load_persisted_config linux st = Inr (st\<lparr>config := c2\<rparr>)"
    using assms(1) by (simp add: load_persisted_config_def Let_def c1_def c2_def z_def)
  have m1: "\<And>k. map_of c1 k = stored_verbatim items (config st) k"
    unfolding c1_def using assms(2) by (rule map_of_apply_items_verbatim)
  have k1: "map fst c1 = map fst (config st)"
    unfolding c1_def by (rule apply_items_keys)
  have present: "z \<Longrightarrow> ''camera_index'' \<in> fst ` set c1"
  proof -
    assume z
    then have "map_of c1 ''camera_index'' \<noteq> None" by (auto simp: z_def split: option.splits)
    then show ?thesis by (simp add: map_of_eq_None_iff)
  qed
  have k2: "map fst c2 = map fst (config st)"
    using k1 present by (simp add: c2_def keys_update_present)
  have m2: "map_of c2 k =
         (if z \<and> k = ''camera_index'' then Some PNone else stored_verbatim items (config st) k)"
    using m1 by (simp add: c2_def update_conv')
  show ?thesis using ld k2 m2 unfolding z_def m1 by simp
qed

text \<open>
  C10. \<open>update_config\<close> does not validate: for every input dict, each key of the
  configuration holds afterwards the value supplied for it, whatever its type or range,
  keys the configuration does not have are ignored, and the keys stay as they were. Loading
  a persisted dict copies its values in the same way and validates nothing, except that
  on Linux a \<open>camera_index\<close> equal to 0 is replaced by None.
\<close>

theorem store_no_validation:
  assumes "distinct (map fst items)"
  shows "map fst (get_config (update_config wr items st)) = map fst (config st)
     \<and> map_of (get_config (update_config wr items st)) k = stored_verbatim items (config st) k
     \<and> (config_file st = Parsed (PDict items) \<longrightarrow>
          (\<exists>st'. load_persisted_config linux st = Inr st'
             \<and> map fst (config st') = map fst (config st)
             \<and> map_of (config st') k =
                 (if linux \<and> k = ''camera_index''
                     \<and> (case stored_verbatim items (config st) ''camera_index'' of
                           None \<Rightarrow> False | Some v \<Rightarrow> eq_zero v)
                  then Some PNone else stored_verbatim items (config st) k)))"
proof -
  have a: "map fst (get_config (update_config wr items st)) = map fst (config st)"
    by (simp add: get_config_def update_config_config apply_items_keys)
  have b: "map_of (get_config (update_config wr items st)) k = stored_verbatim items (config st) k"
    by (simp add: get_config_def update_config_config map_of_apply_items_verbatim [OF assms])
  show ?thesis using a b load_parsed [OF _ assms, of st linux k] by blast
qed


text \<open>
  An infinite \<open>detection_every_n_frames\<close> (the JSON literal \<^verbatim>\<open>1e999\<close>) makes
  \<^verbatim>\<open>int()\<close> raise \<^verbatim>\<open>OverflowError\<close>, which the handler does not catch.
\<close>

lemma post_overflow:
  "api_config_post pint pflt wr [(''detection_every_n_frames'', PFloat PosInf)] st
     = Inl OverflowError"
  by (simp add: api_config_post_def build_changes_def then_block_def field_block_def
      check_detection_def int_of_def)









theorem persist_reload_witness:
  "\<exists>st'. startup True (config_file (persist_config WriteOk
       \<lparr>config = [(''camera_index'', PInt 2), (''orientation'', PStr ''cw''),
                  (''detection_every_n_frames'', PInt 5),
                  (''smoothing_alpha'', PFloat (Fin (1 / 10))),
                  (''margin_factor'', PFloat (Fin 2))],
        config_file = Missing\<rparr>)) = Inr st'
     \<and> get_config st' = [(''camera_index'', PInt 2), (''orientation'', PStr ''cw''),
                  (''detection_every_n_frames'', PInt 5),
                  (''smoothing_alpha'', PFloat (Fin (1 / 10))),
                  (''margin_factor'', PFloat (Fin 2))]"
  using persist_reload [of "\<lparr>config = [(''camera_index'', PInt 2), (''orientation'', PStr ''cw''),
                  (''detection_every_n_frames'', PInt 5),
                  (''smoothing_alpha'', PFloat (Fin (1 / 10))),
                  (''margin_factor'', PFloat (Fin 2))],
        config_file = Missing\<rparr>" True]
  by (simp add: config_keys_simp get_config_def eq_zero_def)

text \<open>
  The claim as stated fails on Linux for a snapshot whose \<open>camera_index\<close> is 0 (the
  POST handler accepts it): it is reloaded as None.
\<close>

theorem persist_reload_counterexample:
  "(case startup True (config_file (persist_config WriteOk
       \<lparr>config = [(''camera_index'', PInt 0), (''orientation'', PStr ''none''),
                  (''detection_every_n_frames'', PInt 10),
                  (''smoothing_alpha'', PFloat (Fin (2 / 100))),
                  (''margin_factor'', PFloat (Fin (28 / 10)))],
        config_file = Missing\<rparr>)) of
      Inl e \<Rightarrow> None
    | Inr st' \<Rightarrow> map_of (get_config st') ''camera_index'') = Some PNone
   \<and> map_of [(''camera_index'', PInt 0), (''orientation'', PStr ''none''),
                  (''detection_every_n_frames'', PInt 10),
                  (''smoothing_alpha'', PFloat (Fin (2 / 100))),
                  (''margin_factor'', PFloat (Fin (28 / 10)))] ''camera_index'' = Some (PInt 0)"
  by (simp add: startup_def load_persisted_config_def persist_config_def get_config_def
      default_config_def eq_zero_def Let_def)

theorem store_no_validation_witness:
  "distinct (map fst [(''camera_index'', PInt 0), (''smoothing_alpha'', PStr ''fast''),
                      (''bogus'', PInt 1)])
   \<and> map_of (get_config (update_config WriteOk
         [(''camera_index'', PInt 0), (''smoothing_alpha'', PStr ''fast''), (''bogus'', PInt 1)]
         \<lparr>config = default_config, config_file = Missing\<rparr>)) ''smoothing_alpha''
       = Some (PStr ''fast'')
   \<and> map_of (get_config (update_config WriteOk
         [(''camera_index'', PInt 0), (''smoothing_alpha'', PStr ''fast''), (''bogus'', PInt 1)]
         \<lparr>config = default_config, config_file = Missing\<rparr>)) ''bogus'' = None
   \<and> (\<exists>st'. load_persisted_config True
          \<lparr>config = default_config,
           config_file = Parsed (PDict [(''camera_index'', PInt 0),
             (''smoothing_alpha'', PStr ''fast''), (''bogus'', PInt 1)])\<rparr> = Inr st'
        \<and> map_of (config st') ''camera_index'' = Some PNone)"
proof -
  let ?items = "[(''camera_index'', PInt 0), (''smoothing_alpha'', PStr ''fast''),
                 (''bogus'', PInt 1)]"
  have d: "distinct (map fst ?items)"
    by simp
  have a: "map_of (get_config (update_config WriteOk ?items
         \<lparr>config = default_config, config_file = Missing\<rparr>)) ''smoothing_alpha''
       = Some (PStr ''fast'')"
    using store_no_validation [OF d, of WriteOk
        "\<lparr>config = default_config, config_file = Missing\<rparr>" "''smoothing_alpha''"]
    by (simp add: stored_verbatim_def default_config_def)
  have b: "map_of (get_config (update_config WriteOk ?items
         \<lparr>config = default_config, config_file = Missing\<rparr>)) ''bogus'' = None"
    using store_no_validation [OF d, of WriteOk
        "\<lparr>config = default_config, config_file = Missing\<rparr>" "''bogus''"]
    by (simp add: stored_verbatim_def default_config_def)
  have "\<exists>st'. load_persisted_config True
          \<lparr>config = default_config, config_file = Parsed (PDict ?items)\<rparr> = Inr st'
        \<and> map fst (config st')
            = map fst (config \<lparr>config = default_config, config_file = Parsed (PDict ?items)\<rparr>)
        \<and> map_of (config st') ''camera_index'' =
            (if True \<and> ''camera_index'' = ''camera_index''
               \<and> (case stored_verbatim ?items
                        (config \<lparr>config = default_config,
                                 config_file = Parsed (PDict ?items)\<rparr>) ''camera_index'' of
                     None \<Rightarrow> False | Some v \<Rightarrow> eq_zero v)
             then Some PNone
             else stored_verbatim ?items
                    (config \<lparr>config = default_config,
                             config_file = Parsed (PDict ?items)\<rparr>) ''camera_index'')"
    using store_no_validation [OF d, of WriteOk
        "\<lparr>config = default_config, config_file = Parsed (PDict ?items)\<rparr>" "''camera_index''"
        True, THEN conjunct2, THEN conjunct2]
    by simp
  then obtain st' where l: "load_persisted_config True
          \<lparr>config = default_config, config_file = Parsed (PDict ?items)\<rparr> = Inr st'"
    and m: "map_of (config st') ''camera_index'' =
            (if True \<and> ''camera_index'' = ''camera_index''
               \<and> (case stored_verbatim ?items
                        (config \<lparr>config = default_config,
                                 config_file = Parsed (PDict ?items)\<rparr>) ''camera_index'' of
                     None \<Rightarrow> False | Some v \<Rightarrow> eq_zero v)
             then Some PNone
             else stored_verbatim ?items
                    (config \<lparr>config = default_config,
                             config_file = Parsed (PDict ?items)\<rparr>) ''camera_index'')"
    by blast
  have "map_of (config st') ''camera_index'' = Some PNone"
    unfolding m by (simp add: stored_verbatim_def default_config_def eq_zero_def)
  then have c: "\<exists>st'. load_persisted_config True
          \<lparr>config = default_config, config_file = Parsed (PDict ?items)\<rparr> = Inr st'
        \<and> map_of (config st') ''camera_index'' = Some PNone"
    using l by blast
  show ?thesis using d a b c by blast
qed

end
